theory Spec2Isabelle
  imports Main "HOL-Library.Word"
begin

unbundle bit_operations_syntax

section \<open>Basic data of the event pipeline\<close>

text \<open>
  \<open>common.Address\<close> is a 20-byte array and \<open>common.Hash\<close> a 32-byte array; both are
  compared with \<open>==\<close> as values. Their Go zero value is the all-zero array, here the
  word \<open>0\<close>. Go's \<open>*big.Int\<close> is an unbounded integer, \<open>[]byte\<close> a list of bytes and a Go
  \<open>string\<close> a sequence of bytes (\<open>len\<close> counts bytes), here a \<open>char list\<close>.
\<close>

type_synonym address = "160 word"
type_synonym hash = "256 word"
type_synonym bytes = "8 word list"

text \<open>
  A \<open>types.Transaction\<close> as far as the processor reads it. The field \<open>tx_sender\<close> stands
  for the result of \<open>types.Sender(types.LatestSignerForChainID(tx.ChainId()), tx)\<close>, the
  signature recovery of go-ethereum: \<open>None\<close> when it returns an error.
\<close>

record Transaction =
  tx_hash :: hash
  tx_to :: "address option"
  tx_value :: int
  tx_gasPrice :: int
  tx_gas :: "64 word"
  tx_data :: bytes
  tx_sender :: "address option"

record TransactionInfo =
  Transaction :: Transaction
  BlockHash :: hash
  BlockNumber :: "64 word"
  From :: address
  To :: address
  Value :: int
  GasPrice :: int
  Gas :: "64 word"
  Input :: bytes
  IsContractCall :: bool

record TransactionFilter =
  FromAddress :: "address option"
  ToAddress :: "address option"
  MinValue :: "int option"
  OnlyContractTxs :: bool
  MethodSignature :: string

section \<open>Method signatures\<close>

text \<open>\<open>strings.TrimPrefix\<close>: the string without the prefix when it starts with it.\<close>

definition TrimPrefix :: "string \<Rightarrow> string \<Rightarrow> string" where
  "TrimPrefix s prefix =
     (if length prefix \<le> length s \<and> take (length prefix) s = prefix
      then drop (length prefix) s else s)"

text \<open>\<open>common.Bytes2Hex\<close> is \<open>hex.EncodeToString\<close>: two lower-case digits per byte.\<close>

definition hextable :: string where
  "hextable = ''0123456789abcdef''"

definition Bytes2Hex :: "bytes \<Rightarrow> string" where
  "Bytes2Hex d =
     concat (map (\<lambda>b. [hextable ! unat (drop_bit 4 b), hextable ! unat (b AND 0x0f)]) d)"

text \<open>
  \<open>strings.EqualFold\<close>. Its loop compares the two strings byte by byte while both bytes
  are ASCII: equal bytes, or an upper-case letter and the letter 32 above it.
\<close>

definition foldEqByte :: "char \<Rightarrow> char \<Rightarrow> bool" where
  "foldEqByte sr tr =
     (let a = (of_char sr :: nat); b = (of_char tr :: nat);
          lo = min a b; hi = max a b
      in a = b \<or> (65 \<le> lo \<and> lo \<le> 90 \<and> hi = lo + 32))"

text \<open>
  At the first position holding a byte of \<open>0x80\<close> or more, Go leaves the byte loop and
  compares runes under Unicode simple case folding. The only caller here passes the
  output of \<open>Bytes2Hex\<close> as the first string, so such a byte is in the second string; it
  decodes to a rune of at least \<open>U+0080\<close> (or to \<open>U+FFFD\<close>), and the folding orbit of a
  digit or of a letter \<open>a\<close>..\<open>f\<close> holds ASCII runes only: the rune comparison fails at
  once. The model returns \<open>False\<close> there, and is \<open>strings.EqualFold\<close> for every first
  string that is ASCII without \<open>k\<close>, \<open>K\<close>, \<open>s\<close>, \<open>S\<close>.
\<close>

fun EqualFold :: "string \<Rightarrow> string \<Rightarrow> bool" where
  "EqualFold [] [] = True"
| "EqualFold [] (t # ts) = False"
| "EqualFold (s # ss) [] = False"
| "EqualFold (s # ss) (t # ts) =
     (if 128 \<le> (of_char s :: nat) \<or> 128 \<le> (of_char t :: nat) then False
      else foldEqByte s t \<and> EqualFold ss ts)"

definition matchesMethodSignature :: "bytes \<Rightarrow> string \<Rightarrow> bool" where
  "matchesMethodSignature d signature =
     (if length d < 4 then False
      else let sig = TrimPrefix signature ''0x''
           in if 8 \<le> length sig then EqualFold (Bytes2Hex (take 4 d)) (take 8 sig)
              else False)"

section \<open>The transaction processor\<close>

text \<open>
  \<open>matchesFilter\<close> reads the processor's filter, which its caller has checked to be
  non-nil; the checks run in the source's order and the first failing one returns.
\<close>

definition matchesFilter :: "TransactionFilter \<Rightarrow> TransactionInfo \<Rightarrow> bool" where
  "matchesFilter f info =
     (if FromAddress f \<noteq> None \<and> From info \<noteq> the (FromAddress f) then False
      else if ToAddress f \<noteq> None \<and> To info \<noteq> the (ToAddress f) then False
      else if MinValue f \<noteq> None \<and> Value info < the (MinValue f) then False
      else if OnlyContractTxs f \<and> \<not> IsContractCall info then False
      else if MethodSignature f \<noteq> [] \<and>
              \<not> matchesMethodSignature (Input info) (MethodSignature f) then False
      else True)"

text \<open>
  The enrichment done by the callback of \<open>Start\<close>: \<open>To\<close> and \<open>From\<close> keep Go's zero
  value when the transaction has no recipient or the sender recovery fails.
\<close>

definition buildInfo :: "Transaction \<Rightarrow> hash \<Rightarrow> 64 word \<Rightarrow> TransactionInfo" where
  "buildInfo tx blockHash blockNumber =
     \<lparr> Transaction = tx, BlockHash = blockHash, BlockNumber = blockNumber,
       From = (case tx_sender tx of Some a \<Rightarrow> a | None \<Rightarrow> 0),
       To = (case tx_to tx of Some a \<Rightarrow> a | None \<Rightarrow> 0),
       Value = tx_value tx, GasPrice = tx_gasPrice tx, Gas = tx_gas tx,
       Input = tx_data tx,
       IsContractCall = (0 < length (tx_data tx) \<and> tx_to tx \<noteq> None) \<rparr>"

text \<open>
  A handler is a function of the enriched transaction; what it does is the list of
  effects it returns. The processor holds the handlers in registration order and at most
  one filter.
\<close>

record 'e TransactionProcessor =
  handlers :: "(TransactionInfo \<Rightarrow> 'e list) list"
  filter_p :: "TransactionFilter option"

definition NewTransactionProcessor :: "'e TransactionProcessor" where
  "NewTransactionProcessor = \<lparr> handlers = [], filter_p = None \<rparr>"

definition WithFilter :: "TransactionFilter option \<Rightarrow> 'e TransactionProcessor \<Rightarrow> 'e TransactionProcessor" where
  "WithFilter f p = p \<lparr> filter_p := f \<rparr>"

definition OnTransaction :: "(TransactionInfo \<Rightarrow> 'e list) \<Rightarrow> 'e TransactionProcessor \<Rightarrow> 'e TransactionProcessor" where
  "OnTransaction h p = p \<lparr> handlers := handlers p @ [h] \<rparr>"

text \<open>
  The callback that \<open>Start\<close> registers with the listener, run on one transaction: the
  effects of all handlers in order, or none when a filter is installed and fails.
\<close>

definition processTransaction :: "'e TransactionProcessor \<Rightarrow> Transaction \<Rightarrow> hash \<Rightarrow> 64 word \<Rightarrow> 'e list" where
  "processTransaction p tx blockHash blockNumber =
     (let info = buildInfo tx blockHash blockNumber
      in if filter_p p \<noteq> None \<and> \<not> matchesFilter (the (filter_p p)) info then []
         else concat (map (\<lambda>h. h info) (handlers p)))"


section \<open>The listener\<close>

text \<open>
  \<open>EventType\<close> is a Go string type with three named constants; a client's filter frame
  may hold any other string.
\<close>

type_synonym EventType = string

definition EventTypeNewBlock :: EventType where
  "EventTypeNewBlock = ''new_block''"

definition EventTypeNewTransaction :: EventType where
  "EventTypeNewTransaction = ''new_transaction''"

definition EventTypeContractEvent :: EventType where
  "EventTypeContractEvent = ''contract_event''"

record Header =
  header_hash :: hash

record Block =
  block_hash :: hash
  block_number :: "64 word"
  block_transactions :: "Transaction list"

record Log =
  log_blockHash :: hash
  log_blockNumber :: "64 word"
  log_txHash :: hash

datatype payload = BlockData Block | TxData Transaction | LogData Log

record Event =
  ev_Type :: EventType
  ev_BlockHash :: hash
  ev_BlockNum :: "64 word"
  ev_TxHash :: hash
  ev_Data :: payload

text \<open>
  One iteration of the \<open>select\<close> in the goroutine of \<open>subscribeToNewBlocks\<close> takes one of
  three cases. A received header comes with the answer that \<open>client.BlockByHash\<close> gives for
  it at that moment: an error (\<open>Inl\<close>) or the full block.
\<close>

datatype selected = SubErr string | HeaderRecv Header "string + Block" | CtxDone

definition blockEvent :: "Block \<Rightarrow> Event" where
  "blockEvent block =
     \<lparr> ev_Type = EventTypeNewBlock, ev_BlockHash = block_hash block,
       ev_BlockNum = block_number block, ev_TxHash = 0, ev_Data = BlockData block \<rparr>"

definition txEvent :: "Block \<Rightarrow> Transaction \<Rightarrow> Event" where
  "txEvent block tx =
     \<lparr> ev_Type = EventTypeNewTransaction, ev_BlockHash = block_hash block,
       ev_BlockNum = block_number block, ev_TxHash = tx_hash tx, ev_Data = TxData tx \<rparr>"

text \<open>
  The loop, run on the cases the \<open>select\<close> takes in order; the result is the sequence of
  events passed to \<open>notifyHandlers\<close>. A subscription error and a cancelled context return,
  a failed block fetch continues with the next iteration. When the cases are used up the
  goroutine waits for the next one.
\<close>

fun subscribeToNewBlocks :: "selected list \<Rightarrow> Event list" where
  "subscribeToNewBlocks [] = []"
| "subscribeToNewBlocks (SubErr err # rest) = []"
| "subscribeToNewBlocks (CtxDone # rest) = []"
| "subscribeToNewBlocks (HeaderRecv header (Inl err) # rest) = subscribeToNewBlocks rest"
| "subscribeToNewBlocks (HeaderRecv header (Inr block) # rest) =
     blockEvent block # map (txEvent block) (block_transactions block)
       @ subscribeToNewBlocks rest"

text \<open>
  \<open>notifyHandlers\<close> starts one goroutine per handler registered for the event's type, in
  registration order; a type without handlers has the nil slice.
\<close>

definition notifyHandlers :: "(EventType \<Rightarrow> 'h list) \<Rightarrow> Event \<Rightarrow> ('h \<times> Event) list" where
  "notifyHandlers hs event = map (\<lambda>h. (h, event)) (hs (ev_Type event))"

section \<open>Subscriber connections\<close>

text \<open>
  A message on the wire is a JSON object; the model keeps its fields instead of its
  bytes. \<open>json.Marshal\<close> of the map built for a transaction match holds strings only and
  does not fail.
\<close>

datatype wire =
    EventMessage EventType hash "64 word" hash payload
  | HighValueTransaction hash address address int hash

record EventFilters =
  EventTypes :: "EventType list"
  ContractAddress :: "string list"

text \<open>
  The channel \<open>send\<close> is its buffer, oldest message first, and its capacity; \<open>ctx_done\<close> says
  that the client's context is cancelled, \<open>conn_closed\<close> that the transport is closed.
\<close>

record WebSocketClient =
  ID :: string
  send :: "wire list"
  send_cap :: nat
  ctx_done :: bool
  conn_closed :: bool
  filters :: EventFilters

datatype send_error = ErrConnectionClosed | ErrBufferFull

text \<open>The identifier is \<open>uuid.New().String()\<close>, given here by the caller.\<close>

definition NewWebSocketClient :: "string \<Rightarrow> WebSocketClient" where
  "NewWebSocketClient uuid =
     \<lparr> ID = uuid, send = [], send_cap = 256, ctx_done = False, conn_closed = False,
       filters = \<lparr> EventTypes = [], ContractAddress = [] \<rparr> \<rparr>"

definition Close :: "WebSocketClient \<Rightarrow> WebSocketClient" where
  "Close c = c \<lparr> ctx_done := True, conn_closed := True \<rparr>"

text \<open>
  \<open>Send\<close> is a \<open>select\<close> with a default: the send case is ready when the buffer has room,
  the \<open>ctx.Done()\<close> case when the context is cancelled. When both are ready Go takes one of
  them at random, here the choice \<open>pick\<close> (\<open>True\<close> for the send case). When none is ready
  the default closes the client.
\<close>

definition Send :: "bool \<Rightarrow> WebSocketClient \<Rightarrow> wire \<Rightarrow> WebSocketClient \<times> send_error option" where
  "Send pick c message =
     (let can_send = length (send c) < send_cap c
      in if can_send \<and> ctx_done c then
           (if pick then (c \<lparr> send := send c @ [message] \<rparr>, None)
            else (c, Some ErrConnectionClosed))
         else if can_send then (c \<lparr> send := send c @ [message] \<rparr>, None)
         else if ctx_done c then (c, Some ErrConnectionClosed)
         else (Close c, Some ErrBufferFull))"

text \<open>The receive \<open><-c.send\<close> of the writing goroutine takes the oldest message.\<close>

definition recvSend :: "WebSocketClient \<Rightarrow> WebSocketClient" where
  "recvSend c = (case send c of [] \<Rightarrow> c | m # ms \<Rightarrow> c \<lparr> send := ms \<rparr>)"

text \<open>What can happen to a client's channel and context, one step at a time.\<close>

datatype client_op = OpSend bool wire | OpRecv | OpClose

fun clientStep :: "WebSocketClient \<Rightarrow> client_op \<Rightarrow> WebSocketClient" where
  "clientStep c (OpSend pick m) = fst (Send pick c m)"
| "clientStep c OpRecv = recvSend c"
| "clientStep c OpClose = Close c"

definition clientRun :: "WebSocketClient \<Rightarrow> client_op list \<Rightarrow> WebSocketClient" where
  "clientRun c ops = foldl clientStep c ops"

text \<open>
  \<open>handleMessage\<close> works on the map that \<open>json.Unmarshal\<close> gives (\<open>None\<close> when it fails).
  It returns the client and the calls of \<open>service.SubscribeToContract\<close> it makes.
\<close>

datatype json = JNull | JBool bool | JNumber int | JString string | JArray "json list"
  | JObject "(string \<times> json) list"

fun jsonStrings :: "json list \<Rightarrow> string list" where
  "jsonStrings [] = []"
| "jsonStrings (JString s # js) = s # jsonStrings js"
| "jsonStrings (j # js) = jsonStrings js"

definition handleMessage ::
  "WebSocketClient \<Rightarrow> (string \<rightharpoonup> json) option \<Rightarrow> WebSocketClient \<times> (string \<times> string list) list" where
  "handleMessage c unmarshalled =
     (case unmarshalled of
        None \<Rightarrow> (c, [])
      | Some msg \<Rightarrow>
         (case msg ''type'' of
            Some (JString msgType) \<Rightarrow>
              if msgType = ''subscribe'' then
                (case msg ''contract'' of
                   Some (JString contract) \<Rightarrow>
                     (c, [(contract, (case msg ''events'' of
                                        Some (JArray eventsArray) \<Rightarrow> jsonStrings eventsArray
                                      | _ \<Rightarrow> []))])
                 | _ \<Rightarrow> (c, []))
              else if msgType = ''filter'' then
                (let c1 = (case msg ''eventTypes'' of
                             Some (JArray eventTypes) \<Rightarrow>
                               c \<lparr> filters := (filters c) \<lparr> EventTypes := jsonStrings eventTypes \<rparr> \<rparr>
                           | _ \<Rightarrow> c);
                     c2 = (case msg ''contracts'' of
                             Some (JArray contracts) \<Rightarrow>
                               c1 \<lparr> filters := (filters c1) \<lparr> ContractAddress := jsonStrings contracts \<rparr> \<rparr>
                           | _ \<Rightarrow> c1)
                 in (c2, []))
              else (c, [])
          | _ \<Rightarrow> (c, [])))"

section \<open>The service\<close>

text \<open>What the service's transaction handler does: a log line and a broadcast.\<close>

datatype effect = LogHighValue hash int | BroadcastRaw wire

text \<open>
  The handler that \<open>setupSubscriptions\<close> gives to \<open>OnTransaction\<close>. The comparison with
  \<open>10^18\<close> wei guards the log line; the message is built and broadcast after it.
\<close>

definition highValueHandler :: "TransactionInfo \<Rightarrow> effect list" where
  "highValueHandler info =
     (if Value info > 1000000000000000000
      then [LogHighValue (tx_hash (Transaction info)) (Value info)] else [])
     @ [BroadcastRaw (HighValueTransaction (tx_hash (Transaction info)) (From info) (To info)
                        (Value info) (BlockHash info))]"

text \<open>
  The registry maps a client's identifier to the client. The map holds pointers in Go;
  every client is registered under its own identifier, so no two keys share a client.
  \<open>RegisterClient\<close> also starts a goroutine that pings the client every 30 seconds and
  unregisters it when the ping fails; that goroutine runs beside the calls modelled here
  and is not part of them.
\<close>

record Service =
  clients :: "string \<rightharpoonup> WebSocketClient"
  txProcessor :: "effect TransactionProcessor"

definition RegisterClient :: "Service \<Rightarrow> WebSocketClient \<Rightarrow> Service" where
  "RegisterClient s client = s \<lparr> clients := (clients s)(ID client \<mapsto> client) \<rparr>"

definition UnregisterClient :: "Service \<Rightarrow> string \<Rightarrow> Service" where
  "UnregisterClient s clientID =
     (case clients s clientID of
        Some client \<Rightarrow> s \<lparr> clients := (clients s)(clientID := None) \<rparr>
      | None \<Rightarrow> s)"

text \<open>
  \<open>broadcastRawEvent\<close> ranges over the registry in the order \<open>order\<close> (Go's map order is
  not fixed; any enumeration of the keys is possible), sends to each client and logs each
  error with the client's identifier. It does not unregister. \<open>pick\<close> gives the choice
  of \<open>Send\<close> for each key.
\<close>

definition broadcastStep ::
  "(string \<Rightarrow> bool) \<Rightarrow> wire \<Rightarrow> string \<Rightarrow> Service \<times> (string \<times> send_error) list
     \<Rightarrow> Service \<times> (string \<times> send_error) list" where
  "broadcastStep pick eventJSON k st =
     (case clients (fst st) k of
        None \<Rightarrow> st
      | Some client \<Rightarrow>
          (let r = Send (pick k) client eventJSON
           in ((fst st) \<lparr> clients := (clients (fst st))(k \<mapsto> fst r) \<rparr>,
               snd st @ (case snd r of None \<Rightarrow> [] | Some err \<Rightarrow> [(ID client, err)]))))"

definition broadcastRawEvent ::
  "string list \<Rightarrow> (string \<Rightarrow> bool) \<Rightarrow> Service \<Rightarrow> wire \<Rightarrow> Service \<times> (string \<times> send_error) list" where
  "broadcastRawEvent order pick s eventJSON = fold (broadcastStep pick eventJSON) order (s, [])"

text \<open>
  \<open>broadcastEvent\<close> builds the message of an event and broadcasts it. \<open>json.Marshal\<close>
  can fail on the event's data; \<open>marshals\<close> says for which events it succeeds. When it
  fails the error is logged and nothing is sent: the result is \<open>None\<close>.
\<close>

definition eventMessage :: "Event \<Rightarrow> wire" where
  "eventMessage event =
     EventMessage (ev_Type event) (ev_BlockHash event) (ev_BlockNum event) (ev_TxHash event)
       (ev_Data event)"

definition broadcastEvent ::
  "(Event \<Rightarrow> bool) \<Rightarrow> string list \<Rightarrow> (string \<Rightarrow> bool) \<Rightarrow> Service \<Rightarrow> Event
     \<Rightarrow> (Service \<times> (string \<times> send_error) list) option" where
  "broadcastEvent marshals order pick s event =
     (if marshals event then Some (broadcastRawEvent order pick s (eventMessage event))
      else None)"

section \<open>Notions used to state the properties\<close>

text \<open>The byte value of a character after ASCII lower-casing.\<close>

definition lowerByte :: "char \<Rightarrow> nat" where
  "lowerByte c =
     (if 65 \<le> (of_char c :: nat) \<and> (of_char c :: nat) \<le> 90 then (of_char c :: nat) + 32
      else of_char c)"

text \<open>
  The conjunction law in the specification's words: each criterion of the filter that is
  present is satisfied by the transaction. A criterion is present when its pointer is
  non-nil, its flag set or its string non-empty.
\<close>

definition criteriaSatisfied :: "TransactionFilter \<Rightarrow> TransactionInfo \<Rightarrow> bool" where
  "criteriaSatisfied f t =
     ((case FromAddress f of None \<Rightarrow> True | Some a \<Rightarrow> From t = a) \<and>
      (case ToAddress f of None \<Rightarrow> True | Some a \<Rightarrow> To t = a) \<and>
      (case MinValue f of None \<Rightarrow> True | Some v \<Rightarrow> v \<le> Value t) \<and>
      (OnlyContractTxs f \<longrightarrow> IsContractCall t) \<and>
      (MethodSignature f \<noteq> [] \<longrightarrow> matchesMethodSignature (Input t) (MethodSignature f)))"

text \<open>The Go zero value \<open>TransactionFilter{}\<close>, and a filter with a method signature only.\<close>

definition emptyFilter :: TransactionFilter where
  "emptyFilter = \<lparr> FromAddress = None, ToAddress = None, MinValue = None,
                   OnlyContractTxs = False, MethodSignature = [] \<rparr>"

definition signatureFilter :: "string \<Rightarrow> TransactionFilter" where
  "signatureFilter sig = emptyFilter \<lparr> MethodSignature := sig \<rparr>"

text \<open>
  Two transactions used as examples: a transfer of exactly \<open>10^18\<close> wei whose sender cannot
  be recovered, and a token transfer call with a known sender.
\<close>

definition unsignedTransfer :: Transaction where
  "unsignedTransfer =
     \<lparr> tx_hash = 0x1234, tx_to = Some 0xbeef, tx_value = 1000000000000000000, tx_gasPrice = 1,
       tx_gas = 21000, tx_data = [], tx_sender = None \<rparr>"

definition tokenTransfer :: Transaction where
  "tokenTransfer =
     \<lparr> tx_hash = 0x5678, tx_to = Some 0xbeef, tx_value = 7, tx_gasPrice = 1,
       tx_gas = 60000, tx_data = [0xa9, 0x05, 0x9c, 0xbb, 0x00, 0x01], tx_sender = Some 0xcafe \<rparr>"

definition tokenTransferFilter :: TransactionFilter where
  "tokenTransferFilter =
     \<lparr> FromAddress = Some 0xcafe, ToAddress = Some 0xbeef, MinValue = Some 5,
       OnlyContractTxs = True, MethodSignature = ''0xA9059cbb'' \<rparr>"

text \<open>The filter that a watch for transactions of at least 0.5 ETH installs.\<close>

definition halfEtherFilter :: TransactionFilter where
  "halfEtherFilter = emptyFilter \<lparr> MinValue := Some 500000000000000000 \<rparr>"

definition recordingHandler :: "TransactionInfo \<Rightarrow> TransactionInfo list" where
  "recordingHandler info = [info]"

text \<open>The processor as \<open>setupSubscriptions\<close> leaves it: one handler, no filter.\<close>

definition serviceProcessor :: "effect TransactionProcessor" where
  "serviceProcessor = OnTransaction highValueHandler NewTransactionProcessor"

definition alertOf :: "TransactionInfo \<Rightarrow> wire" where
  "alertOf info =
     HighValueTransaction (tx_hash (Transaction info)) (From info) (To info) (Value info)
       (BlockHash info)"

fun isBroadcast :: "effect \<Rightarrow> bool" where
  "isBroadcast (BroadcastRaw w) = True"
| "isBroadcast (LogHighValue h v) = False"

text \<open>A feed of headers whose blocks are all fetched, and the events of one block.\<close>

definition delivered :: "(Header \<times> Block) list \<Rightarrow> selected list" where
  "delivered hbs = map (\<lambda>hb. HeaderRecv (fst hb) (Inr (snd hb))) hbs"

definition eventsOfBlock :: "Block \<Rightarrow> Event list" where
  "eventsOfBlock block = blockEvent block # map (txEvent block) (block_transactions block)"

definition isNewBlock :: "Event \<Rightarrow> bool" where
  "isNewBlock e = (ev_Type e = EventTypeNewBlock)"

definition isNewTransaction :: "Event \<Rightarrow> bool" where
  "isNewTransaction e = (ev_Type e = EventTypeNewTransaction)"

definition blockA :: Block where
  "blockA = \<lparr> block_hash = 0xa, block_number = 1,
              block_transactions = [unsignedTransfer, tokenTransfer] \<rparr>"

definition blockB :: Block where
  "blockB = \<lparr> block_hash = 0xb, block_number = 2, block_transactions = [tokenTransfer] \<rparr>"

text \<open>
  A message, and the client that was sent it 257 times after its creation while nothing
  was read from its channel.
\<close>

definition sampleMessage :: wire where
  "sampleMessage = HighValueTransaction 0x1234 0 0xbeef 1000000000000000000 7"

definition overflowedClient :: WebSocketClient where
  "overflowedClient =
     clientRun (NewWebSocketClient ''c1'') (replicate 257 (OpSend True sampleMessage))"


text \<open>A client with its filters reset: what is left is all that a broadcast may read.\<close>

definition withoutFilters :: "WebSocketClient \<Rightarrow> WebSocketClient" where
  "withoutFilters c = c \<lparr> filters := \<lparr> EventTypes = [], ContractAddress = [] \<rparr> \<rparr>"

text \<open>The errors that a broadcast logs for one key.\<close>

definition sendLog :: "(string \<Rightarrow> bool) \<Rightarrow> Service \<Rightarrow> wire \<Rightarrow> string \<Rightarrow> (string \<times> send_error) list" where
  "sendLog pick s m k =
     (case clients s k of None \<Rightarrow> []
      | Some c \<Rightarrow> (case snd (Send (pick k) c m) of None \<Rightarrow> [] | Some err \<Rightarrow> [(ID c, err)]))"

text \<open>
  A registry of two clients: \<open>c1\<close> open with a full queue, \<open>c2\<close> new. In the second
  registry \<open>c2\<close> has received a filter frame. The choice of \<open>Send\<close> is fixed to the send
  case.
\<close>

definition alwaysSend :: "string \<Rightarrow> bool" where
  "alwaysSend k = True"

definition fullClient :: WebSocketClient where
  "fullClient = (NewWebSocketClient ''c1'') \<lparr> send := replicate 256 sampleMessage \<rparr>"

definition twoClients :: Service where
  "twoClients =
     RegisterClient
       (RegisterClient \<lparr> clients = Map.empty, txProcessor = serviceProcessor \<rparr> fullClient)
       (NewWebSocketClient ''c2'')"

definition filterFrame :: "string \<rightharpoonup> json" where
  "filterFrame =
     [''type'' \<mapsto> JString ''filter'',
      ''eventTypes'' \<mapsto> JArray [JString ''contract_event'', JNumber 1],
      ''contracts'' \<mapsto> JArray [JString ''0xbeef'']]"

definition twoClientsFiltered :: Service where
  "twoClientsFiltered =
     RegisterClient twoClients (fst (handleMessage (NewWebSocketClient ''c2'') (Some filterFrame)))"

section \<open>Hex encoding and case folding\<close>

lemma unat_hi: "unat (drop_bit 4 (b :: 8 word)) = unat b div 16"
  by (simp add: drop_bit_eq_div unat_div)

lemma unat_and15: "unat ((b :: 8 word) AND 0x0f) = unat b mod 16"
proof -
  have "unat (b AND 0x0f) = unat b AND unat (0x0f :: 8 word)" by (rule unsigned_and_eq)
  also have "\<dots> = unat b AND mask 4" by (simp add: mask_eq_exp_minus_1)
  also have "\<dots> = unat b mod 16" by (simp add: take_bit_eq_mod flip: take_bit_eq_mask)
  finally show ?thesis .
qed

lemma unat_lt256: "unat (b :: 8 word) < 256"
  using unsigned_less [of b, where 'a = nat] by simp

text \<open>The sixteen values of a hex digit, letters first.\<close>

lemma nibble_cases:
  assumes "n < (16::nat)"
  shows "(n = 10 \<or> n = 11 \<or> n = 12 \<or> n = 13 \<or> n = 14 \<or> n = 15) \<or>
         (n = 0 \<or> n = 1 \<or> n = 2 \<or> n = 3 \<or> n = 4) \<or>
         (n = 5 \<or> n = 6 \<or> n = 7 \<or> n = 8 \<or> n = 9)"
  using assms by arith

lemma hex_nibble_hi: "unat (drop_bit 4 (b :: 8 word)) < 16"
  using unat_lt256 [of b] by (simp add: unat_hi)

lemma hex_nibble_lo: "unat ((b :: 8 word) AND 0x0f) < 16"
  by (simp add: unat_and15)

lemma byte_of_nibbles:
  "(unat (drop_bit 4 (b :: 8 word)) = hi \<and> unat (b AND 0x0f) = lo) \<longleftrightarrow>
     (hi < 16 \<and> lo < 16 \<and> unat b = 16 * hi + lo)"
  unfolding unat_hi unat_and15 using unat_lt256 [of b] by auto

lemma byte_eq_unat: "unat (b :: 8 word) = n \<longleftrightarrow> n < 256 \<and> b = of_nat n"
  using unat_lt256 [of b] by (auto simp: unat_of_nat)

lemma hex_digit_ascii:
  assumes "n < 16"
  shows "of_char (hextable ! n) < (128::nat)"
  using nibble_cases [OF assms] by (auto simp: hextable_def)

text \<open>
  A hex digit produced by the encoder folds to a character exactly when that character,
  lower-cased, is the same digit.
\<close>

lemma digit_match:
  assumes n: "n < 16" and m: "m < 16" and c: "lowerByte c = of_char (hextable ! m)"
  shows "(\<not> 128 \<le> (of_char c :: nat) \<and> foldEqByte (hextable ! n) c) \<longleftrightarrow> n = m"
proof -
  have "(of_char c :: nat) = of_char (hextable ! m) \<or>
        (65 \<le> (of_char c :: nat) \<and> (of_char c :: nat) \<le> 90 \<and>
         of_char (hextable ! m) = (of_char c :: nat) + 32)"
    using c by (auto simp: lowerByte_def split: if_splits)
  then show ?thesis
    using nibble_cases [OF n] nibble_cases [OF m]
    by (elim disjE) (simp_all add: hextable_def foldEqByte_def Let_def)
qed

lemma EqualFold_hex_byte:
  assumes c1: "lowerByte c1 = of_char (hextable ! hi)"
    and c2: "lowerByte c2 = of_char (hextable ! lo)"
    and hi: "hi < 16" and lo: "lo < 16"
  shows "EqualFold (Bytes2Hex (b # bs)) (c1 # c2 # cs) \<longleftrightarrow>
           unat b = 16 * hi + lo \<and> EqualFold (Bytes2Hex bs) cs"
proof -
  let ?h = "unat (drop_bit 4 b)" and ?l = "unat (b AND 0x0f)"
  have h: "(\<not> 128 \<le> (of_char c1 :: nat) \<and> foldEqByte (hextable ! ?h) c1) \<longleftrightarrow> ?h = hi"
    by (rule digit_match [OF hex_nibble_hi hi c1])
  have l: "(\<not> 128 \<le> (of_char c2 :: nat) \<and> foldEqByte (hextable ! ?l) c2) \<longleftrightarrow> ?l = lo"
    by (rule digit_match [OF hex_nibble_lo lo c2])
  have sh: "\<not> 128 \<le> (of_char (hextable ! ?h) :: nat)" "\<not> 128 \<le> (of_char (hextable ! ?l) :: nat)"
    using hex_digit_ascii [OF hex_nibble_hi, of b] hex_digit_ascii [OF hex_nibble_lo, of b]
    by simp_all
  have "EqualFold (Bytes2Hex (b # bs)) (c1 # c2 # cs) \<longleftrightarrow>
          (\<not> 128 \<le> (of_char c1 :: nat) \<and> foldEqByte (hextable ! ?h) c1) \<and>
          (\<not> 128 \<le> (of_char c2 :: nat) \<and> foldEqByte (hextable ! ?l) c2) \<and>
          EqualFold (Bytes2Hex bs) cs"
    using sh by (auto simp: Bytes2Hex_def)
  also have "\<dots> \<longleftrightarrow> (?h = hi \<and> ?l = lo) \<and> EqualFold (Bytes2Hex bs) cs"
    unfolding h l by simp
  also have "\<dots> \<longleftrightarrow> unat b = 16 * hi + lo \<and> EqualFold (Bytes2Hex bs) cs"
    unfolding byte_of_nibbles using hi lo by simp
  finally show ?thesis .
qed

lemma take_four:
  assumes "4 \<le> length (d :: 'a list)"
  obtains b0 b1 b2 b3 where "take 4 d = [b0, b1, b2, b3]"
proof -
  from assms obtain b0 d1 where d: "d = b0 # d1" by (cases d) auto
  with assms obtain b1 d2 where d1: "d1 = b1 # d2" by (cases d1) auto
  with d assms obtain b2 d3 where d2: "d2 = b2 # d3" by (cases d2) auto
  with d d1 assms obtain b3 d4 where d3: "d3 = b3 # d4" by (cases d3) auto
  have "take 4 d = [b0, b1, b2, b3]" by (simp add: d d1 d2 d3)
  then show thesis by (rule that)
qed

lemma EqualFold_a9059cbb:
  assumes s: "map lowerByte s = map of_char ''a9059cbb''" and d: "4 \<le> length d"
  shows "EqualFold (Bytes2Hex (take 4 d)) s \<longleftrightarrow> take 4 d = [0xa9, 0x05, 0x9c, 0xbb]"
proof -
  obtain b0 b1 b2 b3 where t: "take 4 d = [b0, b1, b2, b3]"
    using d by (rule take_four)
  from s obtain c1 c2 c3 c4 c5 c6 c7 c8 where s8: "s = [c1, c2, c3, c4, c5, c6, c7, c8]"
    and c: "lowerByte c1 = of_char (hextable ! 10)" "lowerByte c2 = of_char (hextable ! 9)"
      "lowerByte c3 = of_char (hextable ! 0)" "lowerByte c4 = of_char (hextable ! 5)"
      "lowerByte c5 = of_char (hextable ! 9)" "lowerByte c6 = of_char (hextable ! 12)"
      "lowerByte c7 = of_char (hextable ! 11)" "lowerByte c8 = of_char (hextable ! 11)"
    by (auto simp: map_eq_Cons_conv hextable_def)
  have "EqualFold (Bytes2Hex [b0, b1, b2, b3]) s \<longleftrightarrow>
          unat b0 = 169 \<and> unat b1 = 5 \<and> unat b2 = 156 \<and> unat b3 = 187"
    unfolding s8
    by (simp add: EqualFold_hex_byte [OF c(1) c(2)] EqualFold_hex_byte [OF c(3) c(4)]
          EqualFold_hex_byte [OF c(5) c(6)] EqualFold_hex_byte [OF c(7) c(8)])
       (simp add: Bytes2Hex_def)
  then show ?thesis
    unfolding t by (simp add: byte_eq_unat)
qed

section \<open>Method-signature predicate\<close>

lemma TrimPrefix_0x_append: "TrimPrefix (''0x'' @ s) ''0x'' = s"
  by (simp add: TrimPrefix_def)

lemma TrimPrefix_no_0x: "s \<noteq> [] \<Longrightarrow> hd s \<noteq> CHR ''0'' \<Longrightarrow> TrimPrefix s ''0x'' = s"
  by (cases s) (auto simp: TrimPrefix_def)

lemma lower_a9059cbb_shape:
  assumes "map lowerByte s = map of_char ''a9059cbb''"
  shows "length s = 8" and "s \<noteq> []" and "hd s \<noteq> CHR ''0''"
proof -
  from assms have "length (map lowerByte s) = 8" by simp
  then show "length s = 8" by simp
  then show "s \<noteq> []" by auto
  from assms show "hd s \<noteq> CHR ''0''"
    by (cases s) (auto simp: lowerByte_def split: if_splits)
qed

lemma matches_variant:
  assumes s: "map lowerByte s = map of_char ''a9059cbb''"
  shows "matchesMethodSignature d (''0x'' @ s) \<longleftrightarrow>
           4 \<le> length d \<and> take 4 d = [0xa9, 0x05, 0x9c, 0xbb]"
    and "matchesMethodSignature d s \<longleftrightarrow> 4 \<le> length d \<and> take 4 d = [0xa9, 0x05, 0x9c, 0xbb]"
proof -
  note sh = lower_a9059cbb_shape [OF s]
  show "matchesMethodSignature d (''0x'' @ s) \<longleftrightarrow>
          4 \<le> length d \<and> take 4 d = [0xa9, 0x05, 0x9c, 0xbb]"
    unfolding matchesMethodSignature_def TrimPrefix_0x_append
    using EqualFold_a9059cbb [OF s, of d] sh(1) by (auto simp: Let_def)
  show "matchesMethodSignature d s \<longleftrightarrow> 4 \<le> length d \<and> take 4 d = [0xa9, 0x05, 0x9c, 0xbb]"
    unfolding matchesMethodSignature_def TrimPrefix_no_0x [OF sh(2) sh(3)]
    using EqualFold_a9059cbb [OF s, of d] sh(1) by (auto simp: Let_def)
qed

lemma lower_literal: "map lowerByte ''a9059cbb'' = map of_char ''a9059cbb''"
  by (simp add: lowerByte_def)

lemma short_data_no_match: "length d < 4 \<Longrightarrow> \<not> matchesMethodSignature d sig"
  by (simp add: matchesMethodSignature_def)

lemma signatureFilter_matches:
  "sig \<noteq> [] \<Longrightarrow>
   matchesFilter (signatureFilter sig) info = matchesMethodSignature (Input info) sig"
  by (simp add: matchesFilter_def signatureFilter_def emptyFilter_def)

text \<open>
  Claim C7. With the signature \<open>0xa9059cbb\<close> the method-signature predicate, and a filter
  holding only that signature, match input data exactly when the data has at least 4
  bytes and begins with \<open>a9 05 9c bb\<close>. The same holds for every upper/lower-case variant
  of the eight digits, with or without the prefix \<open>0x\<close>. Input data of fewer than 4 bytes
  matches no signature at all.
\<close>

theorem method_signature_a9059cbb:
  "(matchesMethodSignature d ''0xa9059cbb'' \<longleftrightarrow>
      4 \<le> length d \<and> take 4 d = [0xa9, 0x05, 0x9c, 0xbb]) \<and>
   (matchesFilter (signatureFilter ''0xa9059cbb'') info \<longleftrightarrow>
      4 \<le> length (Input info) \<and> take 4 (Input info) = [0xa9, 0x05, 0x9c, 0xbb]) \<and>
   (map lowerByte s = map of_char ''a9059cbb'' \<longrightarrow>
      (matchesMethodSignature d (''0x'' @ s) \<longleftrightarrow>
         4 \<le> length d \<and> take 4 d = [0xa9, 0x05, 0x9c, 0xbb]) \<and>
      (matchesMethodSignature d s \<longleftrightarrow>
         4 \<le> length d \<and> take 4 d = [0xa9, 0x05, 0x9c, 0xbb])) \<and>
   (length d < 4 \<longrightarrow> \<not> matchesMethodSignature d sig)"
proof -
  have a: "matchesMethodSignature d' ''0xa9059cbb'' \<longleftrightarrow>
      4 \<le> length d' \<and> take 4 d' = [0xa9, 0x05, 0x9c, 0xbb]" for d'
    using matches_variant(1) [OF lower_literal, of d'] by simp
  have b: "matchesFilter (signatureFilter ''0xa9059cbb'') info \<longleftrightarrow>
      4 \<le> length (Input info) \<and> take 4 (Input info) = [0xa9, 0x05, 0x9c, 0xbb]"
    using a [of "Input info"] by (simp add: signatureFilter_matches)
  show ?thesis
    using a [of d] b matches_variant [of s d] short_data_no_match [of d sig] by blast
qed

theorem method_signature_a9059cbb_witness:
  "matchesMethodSignature [0xa9, 0x05, 0x9c, 0xbb, 0x00, 0x01] ''0xA9059cBB'' \<and>
   matchesMethodSignature [0xa9, 0x05, 0x9c, 0xbb] ''A9059CBB'' \<and>
   \<not> matchesMethodSignature [0xa9, 0x05, 0x9c, 0xbc] ''0xa9059cbb'' \<and>
   \<not> matchesMethodSignature [0xa9, 0x05, 0x9c] ''0xa9059cbb''"
proof -
  let ?i = "buildInfo tokenTransfer 7 8"
  have v1: "map lowerByte ''A9059cBB'' = map of_char ''a9059cbb''"
    by (simp add: lowerByte_def)
  have v2: "map lowerByte ''A9059CBB'' = map of_char ''a9059cbb''"
    by (simp add: lowerByte_def)
  have short: "length [0xa9, 0x05, 0x9c :: 8 word] < 4" by simp
  show ?thesis
    using method_signature_a9059cbb
        [of "[0xa9, 0x05, 0x9c, 0xbb, 0x00, 0x01]" ?i "''A9059cBB''" "''0xa9059cbb''"]
      method_signature_a9059cbb [of "[0xa9, 0x05, 0x9c, 0xbb]" ?i "''A9059CBB''" "''0xa9059cbb''"]
      method_signature_a9059cbb [of "[0xa9, 0x05, 0x9c, 0xbc]" ?i "''A9059CBB''" "''0xa9059cbb''"]
      method_signature_a9059cbb [of "[0xa9, 0x05, 0x9c]" ?i "''A9059CBB''" "''0xa9059cbb''"]
      v1 v2 short
    by simp
qed

text \<open>
  Claim C10. When the method signature, after the optional prefix \<open>0x\<close> is stripped, is
  non-empty and shorter than 8 characters, the method-signature predicate is false for
  every input data, and a filter holding that signature matches no transaction.
\<close>

theorem short_signature_never_matches:
  assumes "TrimPrefix sig ''0x'' \<noteq> []" and "length (TrimPrefix sig ''0x'') < 8"
  shows "\<not> matchesMethodSignature d sig \<and>
         (MethodSignature f = sig \<longrightarrow> \<not> matchesFilter f info)"
proof -
  have m: "\<not> matchesMethodSignature d' sig" for d'
    using assms(2) by (simp add: matchesMethodSignature_def Let_def)
  have "sig \<noteq> []" using assms(1) by (auto simp: TrimPrefix_def)
  then show ?thesis using m [of d] m [of "Input info"] by (simp add: matchesFilter_def)
qed

theorem short_signature_never_matches_witness:
  "TrimPrefix ''0xa9059c'' ''0x'' \<noteq> [] \<and> length (TrimPrefix ''0xa9059c'' ''0x'') < 8 \<and>
   \<not> matchesMethodSignature [0xa9, 0x05, 0x9c, 0xbb] ''0xa9059c'' \<and>
   \<not> matchesFilter (signatureFilter ''0xa9059c'') (buildInfo tokenTransfer 7 8)"
proof -
  have h1: "TrimPrefix ''0xa9059c'' ''0x'' \<noteq> []" by (simp add: TrimPrefix_def)
  have h2: "length (TrimPrefix ''0xa9059c'' ''0x'') < 8" by (simp add: TrimPrefix_def)
  have f: "MethodSignature (signatureFilter ''0xa9059c'') = ''0xa9059c''"
    by (simp add: signatureFilter_def)
  show ?thesis
    using h1 h2 f short_signature_never_matches [OF h1 h2, of "[0xa9, 0x05, 0x9c, 0xbb]"
        "signatureFilter ''0xa9059c''" "buildInfo tokenTransfer 7 8"]
    by simp
qed

section \<open>Filter matching\<close>

text \<open>
  Claim C4. For every filter and every enriched transaction, \<open>matchesFilter\<close> is true
  exactly when each present criterion (sender, recipient, minimum value, contract-call
  flag, method signature) is satisfied, an absent criterion imposing nothing; and the
  filter with no criterion matches every transaction.
\<close>

theorem matchesFilter_conjunction:
  "matchesFilter f t = criteriaSatisfied f t \<and> matchesFilter emptyFilter t"
  by (cases "FromAddress f"; cases "ToAddress f"; cases "MinValue f")
     (auto simp: matchesFilter_def criteriaSatisfied_def emptyFilter_def)

theorem matchesFilter_conjunction_witness:
  "criteriaSatisfied tokenTransferFilter (buildInfo tokenTransfer 7 8) \<and>
   matchesFilter tokenTransferFilter (buildInfo tokenTransfer 7 8) \<and>
   \<not> criteriaSatisfied tokenTransferFilter (buildInfo unsignedTransfer 7 8) \<and>
   \<not> matchesFilter tokenTransferFilter (buildInfo unsignedTransfer 7 8) \<and>
   matchesFilter emptyFilter (buildInfo unsignedTransfer 7 8)"
proof -
  have "matchesMethodSignature [0xa9, 0x05, 0x9c, 0xbb, 0x00, 0x01] ''0xA9059cbb''"
    by (simp add: matchesMethodSignature_def TrimPrefix_def Bytes2Hex_def hextable_def
        foldEqByte_def)
  then have a: "criteriaSatisfied tokenTransferFilter (buildInfo tokenTransfer 7 8)"
    by (simp add: criteriaSatisfied_def tokenTransferFilter_def buildInfo_def tokenTransfer_def)
  have b: "\<not> criteriaSatisfied tokenTransferFilter (buildInfo unsignedTransfer 7 8)"
    by (simp add: criteriaSatisfied_def tokenTransferFilter_def buildInfo_def
        unsignedTransfer_def)
  show ?thesis
    using a b matchesFilter_conjunction [of tokenTransferFilter "buildInfo tokenTransfer 7 8"]
      matchesFilter_conjunction [of tokenTransferFilter "buildInfo unsignedTransfer 7 8"]
    by simp
qed

section \<open>Transactions without a recovered sender\<close>

text \<open>
  Claim C2, as stated, fails at the zero address: a transaction whose sender cannot be
  recovered has the zero address in \<open>From\<close>, so a filter requiring the zero address as
  sender matches it and its handlers run.
\<close>

theorem unknown_sender_matches_zero_address:
  "tx_sender unsignedTransfer = None \<and>
   matchesFilter (emptyFilter \<lparr> FromAddress := Some 0 \<rparr>) (buildInfo unsignedTransfer 7 8) \<and>
   processTransaction
     (WithFilter (Some (emptyFilter \<lparr> FromAddress := Some 0 \<rparr>))
        (OnTransaction recordingHandler NewTransactionProcessor))
     unsignedTransfer 7 8 = [buildInfo unsignedTransfer 7 8]"
  by (simp add: unsignedTransfer_def emptyFilter_def matchesFilter_def buildInfo_def
      processTransaction_def WithFilter_def OnTransaction_def NewTransactionProcessor_def
      recordingHandler_def)

text \<open>
  Claim C2, amended. For every transaction whose sender cannot be recovered and every
  installed filter whose sender criterion requires an address other than the zero
  address, the filter does not match and the processor runs no handler.
\<close>

theorem unknown_sender_fails_nonzero_sender_filter:
  assumes "tx_sender tx = None" and "filter_p p = Some f" and "FromAddress f = Some a"
    and "a \<noteq> 0"
  shows "\<not> matchesFilter f (buildInfo tx blockHash blockNumber) \<and>
         processTransaction p tx blockHash blockNumber = []"
proof -
  have "From (buildInfo tx blockHash blockNumber) = 0"
    using assms(1) by (simp add: buildInfo_def)
  then have "\<not> matchesFilter f (buildInfo tx blockHash blockNumber)"
    using assms(3,4) by (auto simp: matchesFilter_def)
  then show ?thesis
    using assms(2) by (simp add: processTransaction_def Let_def)
qed

theorem unknown_sender_fails_nonzero_sender_filter_witness:
  "tx_sender unsignedTransfer = None \<and> (0xbeef :: address) \<noteq> 0 \<and>
   \<not> matchesFilter (emptyFilter \<lparr> FromAddress := Some 0xbeef \<rparr>)
       (buildInfo unsignedTransfer 7 8) \<and>
   processTransaction
     (WithFilter (Some (emptyFilter \<lparr> FromAddress := Some 0xbeef \<rparr>))
        (OnTransaction recordingHandler NewTransactionProcessor))
     unsignedTransfer 7 8 = []"
proof -
  let ?f = "emptyFilter \<lparr> FromAddress := Some 0xbeef \<rparr>"
  let ?p = "WithFilter (Some ?f) (OnTransaction recordingHandler NewTransactionProcessor)"
  have h1: "tx_sender unsignedTransfer = None" by (simp add: unsignedTransfer_def)
  have h2: "filter_p ?p = Some ?f" by (simp add: WithFilter_def)
  have h3: "FromAddress ?f = Some 0xbeef" by simp
  have h4: "(0xbeef :: address) \<noteq> 0" by simp
  show ?thesis
    using h1 h4 unknown_sender_fails_nonzero_sender_filter [OF h1 h2 h3 h4, of 7 8] by simp
qed

section \<open>The derived alert\<close>

text \<open>
  Claim C3, as stated, fails: a transaction of exactly \<open>10^18\<close> wei, which is not above the
  threshold, matches the installed filter (a minimum value of half that) and the service's
  handler broadcasts the \<open>high_value_transaction\<close> message for it, without a log line.
\<close>

theorem alert_for_value_at_threshold:
  "tx_value unsignedTransfer = 1000000000000000000 \<and>
   matchesFilter halfEtherFilter (buildInfo unsignedTransfer 7 8) \<and>
   processTransaction (WithFilter (Some halfEtherFilter) serviceProcessor) unsignedTransfer 7 8 =
     [BroadcastRaw (HighValueTransaction 0x1234 0 0xbeef 1000000000000000000 7)]"
  by (simp add: unsignedTransfer_def serviceProcessor_def processTransaction_def buildInfo_def
      OnTransaction_def NewTransactionProcessor_def highValueHandler_def WithFilter_def
      halfEtherFilter_def emptyFilter_def matchesFilter_def)

text \<open>
  Claim C3, amended. The service's transaction handler broadcasts exactly one
  \<open>high_value_transaction\<close> message for every transaction it is called with, whatever the
  value; the threshold of \<open>10^18\<close> wei decides only whether a log line is written. A
  processor holding that handler therefore produces the message for every transaction
  that passes the active filter, or for every transaction when no filter is installed, and
  produces nothing for a transaction that fails the filter.
\<close>

theorem alert_for_every_match:
  "filter isBroadcast (highValueHandler info) = [BroadcastRaw (alertOf info)] \<and>
   (LogHighValue (tx_hash (Transaction info)) (Value info) \<in> set (highValueHandler info)
      \<longleftrightarrow> Value info > 1000000000000000000) \<and>
   (highValueHandler \<in> set (handlers p) \<longrightarrow>
      (filter_p p = None \<or>
       matchesFilter (the (filter_p p)) (buildInfo tx blockHash blockNumber)) \<longrightarrow>
      BroadcastRaw (alertOf (buildInfo tx blockHash blockNumber))
        \<in> set (processTransaction p tx blockHash blockNumber)) \<and>
   (filter_p p \<noteq> None \<longrightarrow>
      \<not> matchesFilter (the (filter_p p)) (buildInfo tx blockHash blockNumber) \<longrightarrow>
      processTransaction p tx blockHash blockNumber = [])"
proof -
  have a: "filter isBroadcast (highValueHandler info) = [BroadcastRaw (alertOf info)]"
    by (simp add: highValueHandler_def alertOf_def)
  have b: "LogHighValue (tx_hash (Transaction info)) (Value info) \<in> set (highValueHandler info)
      \<longleftrightarrow> Value info > 1000000000000000000"
    by (simp add: highValueHandler_def)
  have "BroadcastRaw (alertOf i) \<in> set (highValueHandler i)" for i
    by (simp add: highValueHandler_def alertOf_def)
  then have c: "highValueHandler \<in> set (handlers p) \<longrightarrow>
      (filter_p p = None \<or>
       matchesFilter (the (filter_p p)) (buildInfo tx blockHash blockNumber)) \<longrightarrow>
      BroadcastRaw (alertOf (buildInfo tx blockHash blockNumber))
        \<in> set (processTransaction p tx blockHash blockNumber)"
    by (auto simp: processTransaction_def Let_def)
  have d: "filter_p p \<noteq> None \<longrightarrow>
      \<not> matchesFilter (the (filter_p p)) (buildInfo tx blockHash blockNumber) \<longrightarrow>
      processTransaction p tx blockHash blockNumber = []"
    by (simp add: processTransaction_def Let_def)
  from a b c d show ?thesis by blast
qed

theorem alert_for_every_match_witness:
  "highValueHandler \<in> set (handlers serviceProcessor) \<and> filter_p serviceProcessor = None \<and>
   BroadcastRaw (alertOf (buildInfo tokenTransfer 7 8))
     \<in> set (processTransaction serviceProcessor tokenTransfer 7 8) \<and>
   filter_p (WithFilter (Some tokenTransferFilter) serviceProcessor) \<noteq> None \<and>
   processTransaction (WithFilter (Some tokenTransferFilter) serviceProcessor)
     unsignedTransfer 7 8 = []"
proof -
  let ?q = "WithFilter (Some tokenTransferFilter) serviceProcessor"
  have h1: "highValueHandler \<in> set (handlers serviceProcessor)"
    by (simp add: serviceProcessor_def OnTransaction_def NewTransactionProcessor_def)
  have h2: "filter_p serviceProcessor = None"
    by (simp add: serviceProcessor_def OnTransaction_def NewTransactionProcessor_def)
  have h3: "filter_p ?q \<noteq> None" by (simp add: WithFilter_def)
  have h4: "\<not> matchesFilter (the (filter_p ?q)) (buildInfo unsignedTransfer 7 8)"
    by (simp add: WithFilter_def matchesFilter_def tokenTransferFilter_def buildInfo_def
        unsignedTransfer_def)
  show ?thesis
    using h1 h2 h3 h4
      alert_for_every_match [of "buildInfo tokenTransfer 7 8" serviceProcessor tokenTransfer 7 8]
      alert_for_every_match [of "buildInfo tokenTransfer 7 8" ?q unsignedTransfer 7 8]
    by simp
qed

section \<open>The block feed\<close>

lemma loop_delivered_Cons:
  "subscribeToNewBlocks (delivered (hb # hbs)) =
     eventsOfBlock (snd hb) @ subscribeToNewBlocks (delivered hbs)"
  by (simp add: delivered_def eventsOfBlock_def)

lemma loop_delivered:
  "subscribeToNewBlocks (delivered hbs) = concat (map (\<lambda>hb. eventsOfBlock (snd hb)) hbs)"
proof (induction hbs)
  case Nil
  show ?case by (simp add: delivered_def)
next
  case (Cons hb hbs)
  then show ?case by (simp add: loop_delivered_Cons)
qed

lemma loop_delivered_append:
  "subscribeToNewBlocks (delivered hbs @ rest) =
     subscribeToNewBlocks (delivered hbs) @ subscribeToNewBlocks rest"
  by (induction hbs) (simp_all add: delivered_def)

lemma type_distinct: "EventTypeNewBlock \<noteq> EventTypeNewTransaction"
  by (simp add: EventTypeNewBlock_def EventTypeNewTransaction_def)

lemma newBlock_of_block: "filter isNewBlock (eventsOfBlock b) = [blockEvent b]"
proof -
  have "filter isNewBlock (map (txEvent b) txs) = []" for txs
    using type_distinct by (induction txs) (auto simp: isNewBlock_def txEvent_def)
  then show ?thesis
    by (simp add: eventsOfBlock_def isNewBlock_def blockEvent_def)
qed

lemma newTx_of_block:
  "filter isNewTransaction (eventsOfBlock b) = map (txEvent b) (block_transactions b)"
proof -
  have "filter isNewTransaction (map (txEvent b) txs) = map (txEvent b) txs" for txs
    by (induction txs) (auto simp: isNewTransaction_def txEvent_def)
  then show ?thesis
    using type_distinct by (simp add: eventsOfBlock_def isNewTransaction_def blockEvent_def)
qed

lemma filter_concat_map:
  "filter P (concat (map f xs)) = concat (map (\<lambda>x. filter P (f x)) xs)"
  by (induction xs) auto

text \<open>
  Claim C5. For every sequence of headers whose blocks are fetched, the events the
  listener emits are, block after block in feed order, the \<open>NewBlock\<close> event of the block
  followed by one \<open>NewTransaction\<close> event per transaction in transaction order. Hence the
  \<open>NewBlock\<close> events are exactly one per block, the \<open>NewTransaction\<close> events exactly one
  per transaction, and all events of a block come before those of the next block.
\<close>

theorem block_feed_order:
  "subscribeToNewBlocks (delivered hbs) =
     concat (map (\<lambda>hb. blockEvent (snd hb)
                        # map (txEvent (snd hb)) (block_transactions (snd hb))) hbs) \<and>
   filter isNewBlock (subscribeToNewBlocks (delivered hbs)) =
     map (\<lambda>hb. blockEvent (snd hb)) hbs \<and>
   filter isNewTransaction (subscribeToNewBlocks (delivered hbs)) =
     concat (map (\<lambda>hb. map (txEvent (snd hb)) (block_transactions (snd hb))) hbs) \<and>
   length (subscribeToNewBlocks (delivered hbs)) =
     length hbs + sum_list (map (\<lambda>hb. length (block_transactions (snd hb))) hbs)"
proof -
  have a: "subscribeToNewBlocks (delivered hbs) =
      concat (map (\<lambda>hb. eventsOfBlock (snd hb)) hbs)"
    by (rule loop_delivered)
  have b: "filter isNewBlock (subscribeToNewBlocks (delivered hbs)) =
      map (\<lambda>hb. blockEvent (snd hb)) hbs"
    unfolding a filter_concat_map newBlock_of_block by (induction hbs) simp_all
  have c: "filter isNewTransaction (subscribeToNewBlocks (delivered hbs)) =
     concat (map (\<lambda>hb. map (txEvent (snd hb)) (block_transactions (snd hb))) hbs)"
    unfolding a filter_concat_map newTx_of_block by simp
  have d: "length (subscribeToNewBlocks (delivered hbs)) =
     length hbs + sum_list (map (\<lambda>hb. length (block_transactions (snd hb))) hbs)"
    unfolding a by (induction hbs) (simp_all add: eventsOfBlock_def)
  from a b c d show ?thesis by (simp add: eventsOfBlock_def)
qed

theorem block_feed_order_witness:
  "subscribeToNewBlocks
     [HeaderRecv \<lparr> header_hash = 0xa \<rparr> (Inr blockA), HeaderRecv \<lparr> header_hash = 0xb \<rparr> (Inr blockB)] =
     [blockEvent blockA, txEvent blockA unsignedTransfer, txEvent blockA tokenTransfer,
      blockEvent blockB, txEvent blockB tokenTransfer]"
  using block_feed_order
    [of "[(\<lparr> header_hash = 0xa \<rparr>, blockA), (\<lparr> header_hash = 0xb \<rparr>, blockB)]"]
  by (simp add: delivered_def blockA_def blockB_def)

text \<open>
  Claim C8. A header whose block fetch fails produces no event, and the loop goes on:
  the events emitted for a feed are the same with or without that header, whatever comes
  before and after it; in particular the blocks before and after it have all their
  events.
\<close>

theorem failed_fetch_skipped:
  "subscribeToNewBlocks [HeaderRecv h (Inl err)] = [] \<and>
   subscribeToNewBlocks (pre @ HeaderRecv h (Inl err) # post) =
     subscribeToNewBlocks (pre @ post) \<and>
   subscribeToNewBlocks (delivered hbs @ HeaderRecv h (Inl err) # delivered hbs') =
     subscribeToNewBlocks (delivered hbs) @ subscribeToNewBlocks (delivered hbs')"
proof -
  have skip: "subscribeToNewBlocks (xs @ HeaderRecv h (Inl err) # ys) =
      subscribeToNewBlocks (xs @ ys)" for xs ys
    by (induction xs rule: subscribeToNewBlocks.induct) simp_all
  show ?thesis
    using skip [of pre post] skip [of "delivered hbs" "delivered hbs'"]
      loop_delivered_append [of hbs "delivered hbs'"]
    by simp
qed

theorem failed_fetch_skipped_witness:
  "subscribeToNewBlocks
     [HeaderRecv \<lparr> header_hash = 0xa \<rparr> (Inr blockA),
      HeaderRecv \<lparr> header_hash = 0xc \<rparr> (Inl ''not found''),
      HeaderRecv \<lparr> header_hash = 0xb \<rparr> (Inr blockB)] =
     [blockEvent blockA, txEvent blockA unsignedTransfer, txEvent blockA tokenTransfer,
      blockEvent blockB, txEvent blockB tokenTransfer]"
  using failed_fetch_skipped
    [of "\<lparr> header_hash = 0xc \<rparr>" "''not found''"
        "[HeaderRecv \<lparr> header_hash = 0xa \<rparr> (Inr blockA)]"
        "[HeaderRecv \<lparr> header_hash = 0xb \<rparr> (Inr blockB)]"]
  by (simp add: blockA_def blockB_def)

section \<open>The outbound queue\<close>

lemma clientRun_snoc: "clientRun c (ops @ [op]) = clientStep (clientRun c ops) op"
  by (simp add: clientRun_def)

lemma fill_queue:
  "n \<le> 256 \<Longrightarrow>
   clientRun (NewWebSocketClient uuid) (replicate n (OpSend pick m)) =
     (NewWebSocketClient uuid) \<lparr> send := replicate n m \<rparr>"
proof (induction n)
  case 0
  show ?case by (simp add: clientRun_def NewWebSocketClient_def)
next
  case (Suc n)
  have "replicate (Suc n) (OpSend pick m) = replicate n (OpSend pick m) @ [OpSend pick m]"
    by (simp add: replicate_append_same)
  then have "clientRun (NewWebSocketClient uuid) (replicate (Suc n) (OpSend pick m)) =
      clientStep (clientRun (NewWebSocketClient uuid) (replicate n (OpSend pick m)))
        (OpSend pick m)"
    by (simp only: clientRun_snoc)
  also have "\<dots> =
      clientStep ((NewWebSocketClient uuid) \<lparr> send := replicate n m \<rparr>) (OpSend pick m)"
    using Suc by simp
  also have "\<dots> = (NewWebSocketClient uuid) \<lparr> send := replicate (Suc n) m \<rparr>"
    using Suc.prems by (simp add: Send_def NewWebSocketClient_def replicate_append_same)
  finally show ?case .
qed

lemma overflowedClient_eq:
  "overflowedClient =
     Close ((NewWebSocketClient ''c1'') \<lparr> send := replicate 256 sampleMessage \<rparr>)"
proof -
  have "(257::nat) = Suc 256" by simp
  then have "replicate 257 (OpSend True sampleMessage) =
      replicate 256 (OpSend True sampleMessage) @ [OpSend True sampleMessage]"
    by (simp only: replicate_Suc replicate_append_same)
  then have "overflowedClient =
      clientStep (clientRun (NewWebSocketClient ''c1'') (replicate 256 (OpSend True sampleMessage)))
        (OpSend True sampleMessage)"
    unfolding overflowedClient_def by (simp only: clientRun_snoc)
  also have "\<dots> =
      clientStep ((NewWebSocketClient ''c1'') \<lparr> send := replicate 256 sampleMessage \<rparr>)
        (OpSend True sampleMessage)"
    by (simp add: fill_queue)
  also have "\<dots> =
      Close ((NewWebSocketClient ''c1'') \<lparr> send := replicate 256 sampleMessage \<rparr>)"
    by (simp add: Send_def NewWebSocketClient_def)
  finally show ?thesis .
qed

lemma Send_cap: "send_cap (fst (Send pick c m)) = send_cap c"
  by (simp add: Send_def Close_def Let_def)

lemma Send_bounded:
  "length (send c) \<le> send_cap c \<Longrightarrow> length (send (fst (Send pick c m))) \<le> send_cap c"
  by (auto simp: Send_def Close_def Let_def)

lemma clientStep_bounded:
  assumes "length (send c) \<le> send_cap c"
  shows "length (send (clientStep c op)) \<le> send_cap (clientStep c op) \<and>
         send_cap (clientStep c op) = send_cap c"
proof (cases op)
  case (OpSend pick m)
  then show ?thesis using Send_bounded [OF assms, of pick m] by (simp add: Send_cap)
next
  case OpRecv
  then show ?thesis using assms by (cases "send c") (simp_all add: recvSend_def)
next
  case OpClose
  then show ?thesis using assms by (simp add: Close_def)
qed

lemma clientRun_bounded:
  "length (send c) \<le> send_cap c \<Longrightarrow>
   length (send (clientRun c ops)) \<le> send_cap c \<and> send_cap (clientRun c ops) = send_cap c"
proof (induction ops rule: rev_induct)
  case Nil
  then show ?case by (simp add: clientRun_def)
next
  case (snoc op ops)
  then show ?case
    using clientStep_bounded [of "clientRun c ops" op] by (simp add: clientRun_snoc)
qed

text \<open>
  Claim C6, as stated, fails for a connection that is already closed: the client that
  overflowed on its 257th message holds 256 messages and a cancelled context, and the
  next \<open>Send\<close> returns the connection-closed error, not the full-queue error.
\<close>

theorem saturated_closed_send_reports_closed:
  "length (send overflowedClient) = send_cap overflowedClient \<and>
   snd (Send True overflowedClient sampleMessage) = Some ErrConnectionClosed \<and>
   snd (Send True overflowedClient sampleMessage) \<noteq> Some ErrBufferFull"
  unfolding overflowedClient_eq by (simp add: Send_def Close_def NewWebSocketClient_def)

text \<open>
  Claim C6, amended. The queue of a connection never holds more than its capacity, 256
  messages, whatever is sent, received or closed. A \<open>Send\<close> on a saturated queue returns
  an error without blocking, the full-queue error when the connection is still open and
  the connection-closed error when it is already closed; it leaves the queued messages as
  they are, and the connection is closed afterwards (closed by this \<open>Send\<close> when it was
  open).
\<close>

theorem queue_bounded_and_saturated_send:
  "length (send (clientRun (NewWebSocketClient uuid) ops)) \<le> 256 \<and>
   (length (send c) \<le> send_cap c \<longrightarrow> length (send (fst (Send pick c m))) \<le> send_cap c) \<and>
   (send_cap c \<le> length (send c) \<longrightarrow>
      snd (Send pick c m) = Some (if ctx_done c then ErrConnectionClosed else ErrBufferFull) \<and>
      send (fst (Send pick c m)) = send c \<and>
      ctx_done (fst (Send pick c m)) \<and>
      (\<not> ctx_done c \<longrightarrow> fst (Send pick c m) = Close c))"
proof -
  have "length (send (NewWebSocketClient uuid)) \<le> send_cap (NewWebSocketClient uuid)"
    by (simp add: NewWebSocketClient_def)
  from clientRun_bounded [OF this, of ops]
  have a: "length (send (clientRun (NewWebSocketClient uuid) ops)) \<le> 256"
    by (simp add: NewWebSocketClient_def)
  have b: "send_cap c \<le> length (send c) \<longrightarrow>
      snd (Send pick c m) = Some (if ctx_done c then ErrConnectionClosed else ErrBufferFull) \<and>
      send (fst (Send pick c m)) = send c \<and>
      ctx_done (fst (Send pick c m)) \<and>
      (\<not> ctx_done c \<longrightarrow> fst (Send pick c m) = Close c)"
    by (simp add: Send_def Close_def Let_def)
  show ?thesis using a b Send_bounded [of c pick m] by blast
qed

theorem queue_bounded_and_saturated_send_witness:
  "send_cap ((NewWebSocketClient ''c1'') \<lparr> send := replicate 256 sampleMessage \<rparr>)
     \<le> length (send ((NewWebSocketClient ''c1'') \<lparr> send := replicate 256 sampleMessage \<rparr>)) \<and>
   \<not> ctx_done ((NewWebSocketClient ''c1'') \<lparr> send := replicate 256 sampleMessage \<rparr>) \<and>
   Send True ((NewWebSocketClient ''c1'') \<lparr> send := replicate 256 sampleMessage \<rparr>) sampleMessage =
     (Close ((NewWebSocketClient ''c1'') \<lparr> send := replicate 256 sampleMessage \<rparr>),
      Some ErrBufferFull) \<and>
   length (send (clientRun (NewWebSocketClient ''c1'')
                   [OpSend True sampleMessage, OpRecv, OpClose])) \<le> 256"
proof -
  let ?c = "(NewWebSocketClient ''c1'') \<lparr> send := replicate 256 sampleMessage \<rparr>"
  have h1: "send_cap ?c \<le> length (send ?c)" by (simp add: NewWebSocketClient_def)
  have h2: "\<not> ctx_done ?c" by (simp add: NewWebSocketClient_def)
  have h3: "length (send ?c) \<le> send_cap ?c" by (simp add: NewWebSocketClient_def)
  show ?thesis
    using h1 h2 h3
      queue_bounded_and_saturated_send
        [of "''c1''" "[OpSend True sampleMessage, OpRecv, OpClose]" ?c True sampleMessage]
    by (simp add: prod_eq_iff)
qed

section \<open>Broadcasting\<close>

lemma broadcastStep_clients:
  "clients (fst (broadcastStep pick m k st)) =
     (case clients (fst st) k of None \<Rightarrow> clients (fst st)
      | Some c \<Rightarrow> (clients (fst st))(k \<mapsto> fst (Send (pick k) c m)))"
  by (simp add: broadcastStep_def Let_def split: option.split)

lemma broadcast_fold_clients:
  "distinct order \<Longrightarrow>
   clients (fst (fold (broadcastStep pick m) order st)) k =
     (if k \<in> set order then map_option (\<lambda>c. fst (Send (pick k) c m)) (clients (fst st) k)
      else clients (fst st) k)"
proof (induction order arbitrary: st)
  case Nil
  show ?case by simp
next
  case (Cons a order)
  then have d: "distinct order" and a: "a \<notin> set order" by simp_all
  show ?case
    using a by (simp add: Cons.IH [OF d] broadcastStep_clients split: option.split)
qed

lemma broadcast_clients:
  "distinct order \<Longrightarrow>
   clients (fst (broadcastRawEvent order pick s m)) k =
     (if k \<in> set order then map_option (\<lambda>c. fst (Send (pick k) c m)) (clients s k)
      else clients s k)"
  by (simp add: broadcastRawEvent_def broadcast_fold_clients)

lemma broadcast_dom:
  "distinct order \<Longrightarrow> dom (clients (fst (broadcastRawEvent order pick s m))) = dom (clients s)"
  by (auto simp: broadcast_clients dom_def split: if_splits)

lemma broadcast_fold_log:
  "distinct order \<Longrightarrow>
   snd (fold (broadcastStep pick m) order st) =
     snd st @ concat (map (sendLog pick (fst st) m) order)"
proof (induction order arbitrary: st)
  case Nil
  show ?case by simp
next
  case (Cons a order)
  then have d: "distinct order" and a: "a \<notin> set order" by simp_all
  have same: "map (sendLog pick (fst (broadcastStep pick m a st)) m) order =
              map (sendLog pick (fst st) m) order"
    using a by (auto simp: sendLog_def broadcastStep_clients split: option.split)
  have step: "snd (broadcastStep pick m a st) = snd st @ sendLog pick (fst st) m a"
    by (simp add: broadcastStep_def sendLog_def Let_def split: option.split)
  show ?case
    by (simp add: Cons.IH [OF d] same step)
qed

lemma broadcast_log:
  "distinct order \<Longrightarrow>
   snd (broadcastRawEvent order pick s m) = concat (map (sendLog pick s m) order)"
  by (simp add: broadcastRawEvent_def broadcast_fold_log)

lemma twoClients_lookup:
  "clients twoClients k =
     (if k = ''c2'' then Some (NewWebSocketClient ''c2'')
      else if k = ''c1'' then Some fullClient else None)"
  by (simp add: twoClients_def RegisterClient_def fullClient_def NewWebSocketClient_def)

text \<open>
  Claim C1, as stated, fails in its last part: with two registered connections of which
  \<open>c1\<close> has a full queue, the broadcast closes \<open>c1\<close> but the registry still has two
  entries afterwards, not one.
\<close>

theorem full_client_stays_registered:
  "card (dom (clients twoClients)) = 2 \<and>
   clients twoClients ''c1'' = Some fullClient \<and>
   length (send fullClient) = send_cap fullClient \<and> \<not> ctx_done fullClient \<and>
   clients twoClients ''c2'' = Some (NewWebSocketClient ''c2'') \<and>
   length (send (NewWebSocketClient ''c2'')) < send_cap (NewWebSocketClient ''c2'') \<and>
   card (dom (clients (fst (broadcastRawEvent [''c1'', ''c2''] alwaysSend twoClients
                              sampleMessage)))) = 2 \<and>
   clients (fst (broadcastRawEvent [''c1'', ''c2''] alwaysSend twoClients sampleMessage)) ''c1''
     = Some (Close fullClient)"
proof -
  have d: "dom (clients twoClients) = {''c1'', ''c2''}"
    by (auto simp: twoClients_lookup split: if_splits)
  have "dom (clients (fst (broadcastRawEvent [''c1'', ''c2''] alwaysSend twoClients
                             sampleMessage))) = {''c1'', ''c2''}"
    using d by (simp add: broadcast_dom)
  moreover have "clients (fst (broadcastRawEvent [''c1'', ''c2''] alwaysSend twoClients
                                sampleMessage)) ''c1'' = Some (Close fullClient)"
    by (simp add: broadcast_clients twoClients_lookup)
       (simp add: fullClient_def NewWebSocketClient_def Send_def)
  ultimately show ?thesis
    using d by (simp add: twoClients_lookup fullClient_def NewWebSocketClient_def)
qed

text \<open>
  Claim C1, amended. When one event is broadcast to the registered connections and exactly
  one of them, an open one, has a full queue, then every other connection keeps its
  state and, when open, has the message appended to its queue; the full connection and
  only that one is closed, and its error is logged; and immediately after the broadcast
  the registry has the same entries as before, the closed connection included: the
  broadcast does not unregister.
\<close>

theorem broadcast_one_full:
  assumes order: "distinct order" "set order = dom (clients s)"
    and full: "clients s k0 = Some c0" "send_cap c0 \<le> length (send c0)" "\<not> ctx_done c0"
    and others: "\<forall>k c. k \<noteq> k0 \<longrightarrow> clients s k = Some c \<longrightarrow> length (send c) < send_cap c"
  shows "dom (clients (fst (broadcastRawEvent order pick s m))) = dom (clients s) \<and>
         card (dom (clients (fst (broadcastRawEvent order pick s m)))) = card (dom (clients s)) \<and>
         clients (fst (broadcastRawEvent order pick s m)) k0 = Some (Close c0) \<and>
         (\<forall>k c. k \<noteq> k0 \<longrightarrow> clients s k = Some c \<longrightarrow>
            (\<exists>c'. clients (fst (broadcastRawEvent order pick s m)) k = Some c' \<and>
                  ctx_done c' = ctx_done c \<and> conn_closed c' = conn_closed c \<and>
                  (\<not> ctx_done c \<longrightarrow> c' = c \<lparr> send := send c @ [m] \<rparr>))) \<and>
         (ID c0, ErrBufferFull) \<in> set (snd (broadcastRawEvent order pick s m))"
proof -
  let ?s' = "fst (broadcastRawEvent order pick s m)"
  have dom: "dom (clients ?s') = dom (clients s)"
    by (rule broadcast_dom [OF order(1)])
  have k0: "k0 \<in> set order" using order(2) full(1) by auto
  have sendfull: "Send (pick k0) c0 m = (Close c0, Some ErrBufferFull)"
    using full(2,3) by (simp add: Send_def)
  have a: "clients ?s' k0 = Some (Close c0)"
    using k0 full(1) sendfull by (simp add: broadcast_clients [OF order(1)])
  have b: "\<exists>c'. clients ?s' k = Some c' \<and> ctx_done c' = ctx_done c \<and>
             conn_closed c' = conn_closed c \<and> (\<not> ctx_done c \<longrightarrow> c' = c \<lparr> send := send c @ [m] \<rparr>)"
    if "k \<noteq> k0" "clients s k = Some c" for k c
  proof -
    have room: "length (send c) < send_cap c" using others that by blast
    have k: "k \<in> set order" using order(2) that(2) by auto
    have "clients ?s' k = Some (fst (Send (pick k) c m))"
      using k that(2) by (simp add: broadcast_clients [OF order(1)])
    moreover have "ctx_done (fst (Send (pick k) c m)) = ctx_done c"
      "conn_closed (fst (Send (pick k) c m)) = conn_closed c"
      "\<not> ctx_done c \<longrightarrow> fst (Send (pick k) c m) = c \<lparr> send := send c @ [m] \<rparr>"
      using room by (simp_all add: Send_def)
    ultimately show ?thesis by simp
  qed
  have "sendLog pick s m k0 = [(ID c0, ErrBufferFull)]"
    using full(1) sendfull by (simp add: sendLog_def)
  then have c: "(ID c0, ErrBufferFull) \<in> set (snd (broadcastRawEvent order pick s m))"
    using k0 by (auto simp: broadcast_log [OF order(1)] intro!: bexI [of _ k0])
  from dom a b c show ?thesis by simp
qed

theorem broadcast_one_full_witness:
  "clients twoClients ''c1'' = Some fullClient \<and> send_cap fullClient \<le> length (send fullClient) \<and>
   \<not> ctx_done fullClient \<and>
   card (dom (clients (fst (broadcastRawEvent [''c1'', ''c2''] alwaysSend twoClients sampleMessage)))) = 2 \<and>
   clients (fst (broadcastRawEvent [''c1'', ''c2''] alwaysSend twoClients sampleMessage)) ''c1''
     = Some (Close fullClient) \<and>
   clients (fst (broadcastRawEvent [''c1'', ''c2''] alwaysSend twoClients sampleMessage)) ''c2''
     = Some ((NewWebSocketClient ''c2'') \<lparr> send := [sampleMessage] \<rparr>)"
proof -
  have dom: "dom (clients twoClients) = {''c1'', ''c2''}"
    by (auto simp: twoClients_lookup split: if_splits)
  have h1: "distinct [''c1'', ''c2'']" by simp
  have h2: "set [''c1'', ''c2''] = dom (clients twoClients)" using dom by simp
  have h3: "clients twoClients ''c1'' = Some fullClient" by (simp add: twoClients_lookup)
  have h4: "send_cap fullClient \<le> length (send fullClient)"
    by (simp add: fullClient_def NewWebSocketClient_def)
  have h5: "\<not> ctx_done fullClient" by (simp add: fullClient_def NewWebSocketClient_def)
  have h6: "\<forall>k c. k \<noteq> ''c1'' \<longrightarrow> clients twoClients k = Some c \<longrightarrow> length (send c) < send_cap c"
    by (simp add: twoClients_lookup NewWebSocketClient_def)
  have c2: "clients twoClients ''c2'' = Some (NewWebSocketClient ''c2'')"
    by (simp add: twoClients_lookup)
  have open2: "\<not> ctx_done (NewWebSocketClient ''c2'')" "send (NewWebSocketClient ''c2'') = []"
    by (simp_all add: NewWebSocketClient_def)
  note t = broadcast_one_full [OF h1 h2 h3 h4 h5 h6, of alwaysSend sampleMessage]
  from t have "card (dom (clients (fst (broadcastRawEvent [''c1'', ''c2''] alwaysSend twoClients sampleMessage)))) = 2"
    using dom by simp
  moreover from t have "clients (fst (broadcastRawEvent [''c1'', ''c2''] alwaysSend twoClients sampleMessage)) ''c1''
     = Some (Close fullClient)" by simp
  moreover
  have ne: "''c2'' \<noteq> ''c1''" by simp
  from t [THEN conjunct2, THEN conjunct2, THEN conjunct2, THEN conjunct1, rule_format, OF ne c2]
    open2
  have "clients (fst (broadcastRawEvent [''c1'', ''c2''] alwaysSend twoClients sampleMessage)) ''c2''
     = Some ((NewWebSocketClient ''c2'') \<lparr> send := [sampleMessage] \<rparr>)"
    by auto
  ultimately show ?thesis using h3 h4 h5 by simp
qed

section \<open>Interest filters\<close>

lemma Send_withoutFilters:
  "Send pick (withoutFilters c) m = (withoutFilters (fst (Send pick c m)), snd (Send pick c m))"
  by (simp add: withoutFilters_def Send_def Close_def Let_def)

lemma withoutFilters_fields: "send (withoutFilters c) = send c" "ID (withoutFilters c) = ID c"
  by (simp_all add: withoutFilters_def)

lemma Send_same_but_filters:
  assumes "withoutFilters c1 = withoutFilters c2"
  shows "withoutFilters (fst (Send pick c1 m)) = withoutFilters (fst (Send pick c2 m))"
    and "snd (Send pick c1 m) = snd (Send pick c2 m)"
    and "ID c1 = ID c2"
proof -
  have "Send pick (withoutFilters c1) m = Send pick (withoutFilters c2) m"
    using assms by simp
  then show "withoutFilters (fst (Send pick c1 m)) = withoutFilters (fst (Send pick c2 m))"
    and "snd (Send pick c1 m) = snd (Send pick c2 m)"
    by (simp_all add: Send_withoutFilters)
  show "ID c1 = ID c2"
    using assms withoutFilters_fields(2) [of c1] withoutFilters_fields(2) [of c2] by simp
qed

lemma withoutFilters_update:
  "withoutFilters (c \<lparr> filters := f \<rparr>) = withoutFilters c"
  by (simp add: withoutFilters_def)

lemma handleMessage_filter_frame:
  "withoutFilters (fst (handleMessage c frame)) = withoutFilters c"
proof (cases frame)
  case None
  then show ?thesis by (simp add: handleMessage_def)
next
  case (Some msg)
  show ?thesis
  proof (cases "msg ''type''")
    case None
    then show ?thesis using Some by (simp add: handleMessage_def)
  next
    case (Some t)
    note ty = this
    show ?thesis
    proof (cases t)
      case (JString msgType)
      have sub: "withoutFilters (fst (case msg ''contract'' of
                   Some (JString contract) \<Rightarrow>
                     (c, [(contract, (case msg ''events'' of
                                        Some (JArray eventsArray) \<Rightarrow> jsonStrings eventsArray
                                      | _ \<Rightarrow> []))])
                 | _ \<Rightarrow> (c, []))) = withoutFilters c"
        by (simp split: option.split json.split)
      have c1: "withoutFilters (case msg ''eventTypes'' of
                             Some (JArray eventTypes) \<Rightarrow>
                               c \<lparr> filters := (filters c) \<lparr> EventTypes := jsonStrings eventTypes \<rparr> \<rparr>
                           | _ \<Rightarrow> c) = withoutFilters c"
        by (simp add: withoutFilters_update split: option.split json.split)
      have c2: "withoutFilters (case msg ''contracts'' of
                             Some (JArray contracts) \<Rightarrow>
                               c1 \<lparr> filters := (filters c1) \<lparr> ContractAddress := jsonStrings contracts \<rparr> \<rparr>
                           | _ \<Rightarrow> c1) = withoutFilters c1" for c1
        by (simp add: withoutFilters_update split: option.split json.split)
      show ?thesis
        using \<open>frame = Some msg\<close> ty JString sub c1 c2
        by (simp add: handleMessage_def Let_def)
    qed (use \<open>frame = Some msg\<close> ty in \<open>simp_all add: handleMessage_def\<close>)
  qed
qed

lemma broadcastStep_same_but_filters:
  assumes agree: "\<forall>k. map_option withoutFilters (clients (fst st1) k) =
                      map_option withoutFilters (clients (fst st2) k)"
    and log: "snd st1 = snd st2"
  shows "(\<forall>k. map_option withoutFilters (clients (fst (broadcastStep pick m a st1)) k) =
              map_option withoutFilters (clients (fst (broadcastStep pick m a st2)) k)) \<and>
         snd (broadcastStep pick m a st1) = snd (broadcastStep pick m a st2)"
proof (cases "clients (fst st1) a")
  case None
  then have "clients (fst st2) a = None" using agree [rule_format, of a] by simp
  then show ?thesis using None agree log by (simp add: broadcastStep_def)
next
  case (Some c1)
  then obtain c2 where c2: "clients (fst st2) a = Some c2"
    and eq: "withoutFilters c1 = withoutFilters c2"
    using agree [rule_format, of a] by (cases "clients (fst st2) a") auto
  note sf = Send_same_but_filters [OF eq]
  show ?thesis
    using Some c2 agree log sf by (simp add: broadcastStep_def Let_def split: option.split)
qed

lemma broadcast_fold_same_but_filters:
  assumes "\<forall>k. map_option withoutFilters (clients (fst st1) k) =
                map_option withoutFilters (clients (fst st2) k)"
    and "snd st1 = snd st2"
  shows "(\<forall>k. map_option withoutFilters (clients (fst (fold (broadcastStep pick m) order st1)) k) =
              map_option withoutFilters (clients (fst (fold (broadcastStep pick m) order st2)) k)) \<and>
         snd (fold (broadcastStep pick m) order st1) = snd (fold (broadcastStep pick m) order st2)"
  using assms
proof (induction order arbitrary: st1 st2)
  case Nil
  then show ?case by simp
next
  case (Cons a order)
  note step = broadcastStep_same_but_filters [OF Cons.prems, of pick m a]
  show ?case
    using Cons.IH [OF step [THEN conjunct1] step [THEN conjunct2]] by simp
qed

lemma send_withoutFilters_option:
  "map_option withoutFilters x = map_option withoutFilters y \<Longrightarrow> map_option send x = map_option send y"
proof -
  assume a: "map_option withoutFilters x = map_option withoutFilters y"
  have "map_option send z = map_option send (map_option withoutFilters z)" for z
    by (cases z) (simp_all add: withoutFilters_fields)
  then show ?thesis using a by metis
qed

lemma filtered_client:
  "fst (handleMessage (NewWebSocketClient ''c2'') (Some filterFrame)) =
     (NewWebSocketClient ''c2'')
       \<lparr> filters := \<lparr> EventTypes = [''contract_event''], ContractAddress = [''0xbeef''] \<rparr> \<rparr>"
  by (simp add: handleMessage_def filterFrame_def NewWebSocketClient_def)

lemma twoClientsFiltered_lookup:
  "clients twoClientsFiltered k =
     (if k = ''c2'' then Some ((NewWebSocketClient ''c2'')
             \<lparr> filters := \<lparr> EventTypes = [''contract_event''], ContractAddress = [''0xbeef''] \<rparr> \<rparr>)
      else if k = ''c1'' then Some fullClient else None)"
  unfolding twoClientsFiltered_def filtered_client
  by (simp add: RegisterClient_def twoClients_lookup NewWebSocketClient_def)

text \<open>
  Claim C9. Two registries that are the same up to the interest filters of their
  connections give, for every message and every event, the same log of errors, the same
  queues and the same connection states up to the filters; and handling a control frame
  changes nothing of a connection but its filters.
\<close>

theorem broadcast_ignores_filters:
  assumes "\<forall>k. map_option withoutFilters (clients s1 k) = map_option withoutFilters (clients s2 k)"
  shows "snd (broadcastRawEvent order pick s1 m) = snd (broadcastRawEvent order pick s2 m) \<and>
         (\<forall>k. map_option withoutFilters (clients (fst (broadcastRawEvent order pick s1 m)) k) =
              map_option withoutFilters (clients (fst (broadcastRawEvent order pick s2 m)) k)) \<and>
         (\<forall>k. map_option send (clients (fst (broadcastRawEvent order pick s1 m)) k) =
              map_option send (clients (fst (broadcastRawEvent order pick s2 m)) k)) \<and>
         map_option snd (broadcastEvent marshals order pick s1 event) =
           map_option snd (broadcastEvent marshals order pick s2 event) \<and>
         (\<forall>k. map_option (\<lambda>r. map_option send (clients (fst r) k))
                (broadcastEvent marshals order pick s1 event) =
              map_option (\<lambda>r. map_option send (clients (fst r) k))
                (broadcastEvent marshals order pick s2 event)) \<and>
         withoutFilters (fst (handleMessage c frame)) = withoutFilters c"
proof -
  have r: "(\<forall>k. map_option withoutFilters (clients (fst (broadcastRawEvent order pick s1 w)) k) =
              map_option withoutFilters (clients (fst (broadcastRawEvent order pick s2 w)) k)) \<and>
           snd (broadcastRawEvent order pick s1 w) = snd (broadcastRawEvent order pick s2 w)" for w
    unfolding broadcastRawEvent_def
    by (rule broadcast_fold_same_but_filters) (use assms in simp_all)
  have q: "\<forall>k. map_option send (clients (fst (broadcastRawEvent order pick s1 w)) k) =
              map_option send (clients (fst (broadcastRawEvent order pick s2 w)) k)" for w
    using r [of w] send_withoutFilters_option by blast
  show ?thesis
    using r [of m] q [of m] r [of "eventMessage event"] q [of "eventMessage event"]
      handleMessage_filter_frame [of c frame]
    by (simp add: broadcastEvent_def)
qed

theorem broadcast_ignores_filters_witness:
  "filters (the (clients twoClients ''c2'')) \<noteq> filters (the (clients twoClientsFiltered ''c2'')) \<and>
   snd (broadcastRawEvent [''c1'', ''c2''] alwaysSend twoClients sampleMessage) =
     snd (broadcastRawEvent [''c1'', ''c2''] alwaysSend twoClientsFiltered sampleMessage) \<and>
   map_option send (clients (fst (broadcastRawEvent [''c1'', ''c2''] alwaysSend twoClients sampleMessage)) ''c2'') =
     map_option send (clients (fst (broadcastRawEvent [''c1'', ''c2''] alwaysSend twoClientsFiltered sampleMessage)) ''c2'')"
proof -
  have h: "\<forall>k. map_option withoutFilters (clients twoClients k) =
               map_option withoutFilters (clients twoClientsFiltered k)"
    by (simp add: twoClients_lookup twoClientsFiltered_lookup withoutFilters_def)
  have d: "filters (the (clients twoClients ''c2'')) \<noteq> filters (the (clients twoClientsFiltered ''c2''))"
    by (simp add: twoClients_lookup twoClientsFiltered_lookup NewWebSocketClient_def)
  show ?thesis
    using d broadcast_ignores_filters [OF h, of "[''c1'', ''c2'']" alwaysSend sampleMessage]
    by simp
qed

end
